theory Spec2Isabelle
  imports Main "HOL-Library.Sublist"
begin

section \<open>Python strings\<close>

text \<open>
  A Python \<open>str\<close> is modelled as a \<open>string\<close>, one \<open>char\<close> per code point; the model covers
  the code points below 256. On these, \<open>str.isspace\<close> (which both \<open>str.strip\<close> and the regular
  expression class \<open>\s\<close> use) holds for the twelve characters listed in \<open>is_space\<close>, the class
  \<open>\d\<close> holds for the ten ASCII digits, and \<open>str.lower\<close> maps \<open>A\<close>..\<open>Z\<close> and the
  upper-case letters \<open>0xC0\<close>..\<open>0xDE\<close> (without the multiplication sign \<open>0xD7\<close>) to the
  letter 32 positions later.
\<close>

definition is_space :: "char \<Rightarrow> bool" where
  "is_space c \<longleftrightarrow>
     c \<in> set [CHR 0x09, CHR 0x0A, CHR 0x0B, CHR 0x0C, CHR 0x0D,
               CHR 0x1C, CHR 0x1D, CHR 0x1E, CHR 0x1F, CHR 0x20, CHR 0x85, CHR 0xA0]"

definition is_digit :: "char \<Rightarrow> bool" where
  "is_digit c \<longleftrightarrow> c \<in> set ''0123456789''"

definition lower_char :: "char \<Rightarrow> char" where
  "lower_char c =
     (let n = (of_char c :: nat)
      in if (65 \<le> n \<and> n \<le> 90) \<or> (192 \<le> n \<and> n \<le> 222 \<and> n \<noteq> 215)
         then char_of (n + 32) else c)"

text \<open>\<open>s.lower()\<close>\<close>

definition lower :: "string \<Rightarrow> string" where
  "lower s = map lower_char s"

text \<open>\<open>s.strip()\<close>: leading and trailing whitespace removed.\<close>

definition strip :: "string \<Rightarrow> string" where
  "strip s = rev (dropWhile is_space (rev (dropWhile is_space s)))"

text \<open>\<open>s.replace(",", "")\<close>\<close>

definition remove_commas :: "string \<Rightarrow> string" where
  "remove_commas s = filter (\<lambda>c. c \<noteq> CHR '','') s"

section \<open>The regular expressions of \<open>extract_price_details\<close>\<close>

text \<open>
  \<open>/\s*month\<close> with \<open>re.IGNORECASE\<close>, anchored at the head of the string: a slash, the
  longest run of whitespace (no whitespace character matches \<open>m\<close>, so the greedy star never
  gives a character back), then five characters that lower to \<open>month\<close>. The result is the
  text after the match.
\<close>

fun match_month :: "string \<Rightarrow> string option" where
  "match_month [] = None"
| "match_month (c # cs) =
     (if c = CHR ''/'' \<and> lower (take 5 (dropWhile is_space cs)) = ''month''
      then Some (drop 5 (dropWhile is_space cs)) else None)"

text \<open>
  \<open>re.search\<close> of that pattern: the leftmost position where it matches, as the text before
  the match and the text after it.
\<close>

fun re_search_month :: "string \<Rightarrow> (string \<times> string) option" where
  "re_search_month [] = None"
| "re_search_month (c # cs) =
     (case match_month (c # cs) of
        Some rest \<Rightarrow> Some ([], rest)
      | None \<Rightarrow> map_option (\<lambda>(before, after). (c # before, after)) (re_search_month cs))"

lemma match_month_shorter: "match_month s = Some rest \<Longrightarrow> length rest < length s"
proof (cases s)
  case Nil
  assume "match_month s = Some rest"
  with Nil show ?thesis by simp
next
  case (Cons c cs)
  assume "match_month s = Some rest"
  with Cons have r: "rest = drop 5 (dropWhile is_space cs)"
    by (simp split: if_splits)
  have "length (dropWhile is_space cs) \<le> length cs"
    by (rule length_dropWhile_le)
  with r Cons show ?thesis by simp
qed

lemma re_search_month_shorter:
  "re_search_month s = Some (before, after) \<Longrightarrow> length after < length s"
proof (induction s arbitrary: before)
  case Nil
  then show ?case by simp
next
  case (Cons c cs)
  show ?case
  proof (cases "match_month (c # cs)")
    case (Some rest)
    with Cons.prems have "after = rest" by simp
    with Some show ?thesis using match_month_shorter by blast
  next
    case None
    with Cons.prems obtain b where "re_search_month cs = Some (b, after)"
      by (auto split: option.splits)
    then have "length after < length cs" by (rule Cons.IH)
    then show ?thesis by simp
  qed
qed

text \<open>
  \<open>re.split(r"/\s*month", text, flags=re.IGNORECASE)\<close>: the pieces of the text between all
  the non-overlapping matches, found from left to right.
\<close>

function re_split_month :: "string \<Rightarrow> string list" where
  "re_split_month s =
     (case re_search_month s of
        None \<Rightarrow> [s]
      | Some (before, after) \<Rightarrow> before # re_split_month after)"
  by pat_completeness auto
termination
  by (relation "measure length") (auto dest: re_search_month_shorter)

text \<open>
  \<open>re.search(r"([X]+)", s)\<close> for a character class \<open>X\<close>, and \<open>group(1)\<close> of the match: the
  first maximal run of characters of the class, \<open>None\<close> when the string has none.
\<close>

definition re_search_class :: "(char \<Rightarrow> bool) \<Rightarrow> string \<Rightarrow> string option" where
  "re_search_class X s =
     (case dropWhile (\<lambda>c. \<not> X c) s of [] \<Rightarrow> None | r \<Rightarrow> Some (takeWhile X r))"

text \<open>The class \<open>[\d,.]\<close>\<close>

definition number_char :: "char \<Rightarrow> bool" where
  "number_char c \<longleftrightarrow> is_digit c \<or> c = CHR '','' \<or> c = CHR ''.''"

text \<open>The class \<open>[^\d\s,.]\<close>\<close>

definition currency_char :: "char \<Rightarrow> bool" where
  "currency_char c \<longleftrightarrow> \<not> (is_digit c \<or> is_space c \<or> c = CHR '','' \<or> c = CHR ''.'')"

section \<open>\<open>extract_price_details\<close>\<close>

text \<open>The test of line 14: \<open>not price_text or "month" not in price_text.lower()\<close>\<close>

definition no_month :: "string \<Rightarrow> bool" where
  "no_month price_text \<longleftrightarrow> price_text = [] \<or> \<not> sublist ''month'' (lower price_text)"

text \<open>The local variables \<open>month_split\<close>, \<open>price_part\<close> and \<open>note_part\<close> of lines 18 to 23.\<close>

definition month_split :: "string \<Rightarrow> string list" where
  "month_split price_text = re_split_month (strip price_text)"

definition price_part :: "string \<Rightarrow> string" where
  "price_part price_text = strip (hd (month_split price_text))"

definition note_part :: "string \<Rightarrow> string" where
  "note_part price_text =
     (if length (month_split price_text) > 1 then strip (month_split price_text ! 1) else [])"

definition extract_price_details :: "string \<Rightarrow> string \<times> string \<times> string" where
  "extract_price_details price_text =
     (if no_month price_text then (''Unknown'', [], price_text)
      else
        let number_match = re_search_class number_char (price_part price_text);
            currency_match = re_search_class currency_char (price_part price_text);
            amount = (case number_match of Some g \<Rightarrow> remove_commas g | None \<Rightarrow> []);
            currency = (case currency_match of Some g \<Rightarrow> g | None \<Rightarrow> ''Unknown'')
        in (currency, amount, note_part price_text))"

section \<open>Exceptions and the page handle\<close>

text \<open>
  An exception is an instance of Python's \<open>Exception\<close>, which is what the browser automation
  and the interpreter raise for timeouts, missing selectors and type errors; it carries the
  text that \<open>str(e)\<close> returns. Every awaited call returns its value or raises. What is
  raised outside that class (a \<open>BaseException\<close> such as \<open>CancelledError\<close> or
  \<open>KeyboardInterrupt\<close>), which the handler of line 84 does not catch, is not in the model.
\<close>

datatype exn = Exception (message: string)

type_synonym 'a result = "exn + 'a"

text \<open>
  The element handle returned by \<open>page.wait_for_selector\<close>, with the outcome of each of
  its methods at the argument it is called with.
\<close>

record input_box =
  fill :: "string \<Rightarrow> unit result"
  type_text :: "string \<Rightarrow> unit result"
  press :: "string \<Rightarrow> unit result"

text \<open>
  The rendered document as \<open>BeautifulSoup\<close> shows it to \<open>process_country\<close>: the first
  \<open>h3\<close> whose string contains \<open>Pricing\<close> if there is one, the next \<open>ul\<close> after it if
  there is one, and the \<open>text\<close> of each \<open>li\<close> in that list.
\<close>

datatype ul = Ul (find_all_li: "string list")

datatype h3 = H3 (find_next_ul: "ul option")

datatype soup = Soup (find_pricing_h3: "h3 option")

text \<open>
  The page handle (a browser tab): the outcome of each method at the arguments it is called
  with. \<open>content\<close> is the rendered HTML, already parsed.
\<close>

record page =
  goto :: "string \<Rightarrow> nat \<Rightarrow> unit result"
  wait_for_timeout :: "nat \<Rightarrow> unit result"
  click :: "string \<Rightarrow> nat \<Rightarrow> unit result"
  wait_for_selector :: "string \<Rightarrow> input_box result"
  content :: "soup result"
  close :: "unit result"

section \<open>\<open>process_country\<close>\<close>

record price_record =
  Country :: string
  Plan :: string
  Price :: string
  Currency :: string
  Amount :: string
  Note :: string

text \<open>\<open>s.split(":", 1)\<close>: one piece when there is no colon, else the two pieces around the first.\<close>

definition split_colon :: "string \<Rightarrow> string list" where
  "split_colon s =
     (case dropWhile (\<lambda>c. c \<noteq> CHR '':'') s of
        [] \<Rightarrow> [s]
      | _ # after \<Rightarrow> [takeWhile (\<lambda>c. c \<noteq> CHR '':'') s, after])"

text \<open>
  The unpacking \<open>plan, price_text = ...\<close>, which raises \<open>ValueError\<close> unless there are
  exactly two pieces.
\<close>

definition unpack_pair :: "string list \<Rightarrow> (string \<times> string) result" where
  "unpack_pair pieces =
     (case pieces of
        [] \<Rightarrow> Inl (Exception ''not enough values to unpack (expected 2, got 0)'')
      | [piece] \<Rightarrow> Inl (Exception ''not enough values to unpack (expected 2, got 1)'')
      | [plan, price_text] \<Rightarrow> Inr (plan, price_text)
      | _ \<Rightarrow> Inl (Exception ''too many values to unpack (expected 2)''))"

text \<open>Lines 68 to 77: the record made from a list item that contains a colon.\<close>

definition li_record :: "string \<Rightarrow> string \<Rightarrow> price_record result" where
  "li_record country li =
     (case unpack_pair (split_colon (strip li)) of
        Inl e \<Rightarrow> Inl e
      | Inr (plan, price_text) \<Rightarrow>
          (case extract_price_details (strip price_text) of
             (currency, amount, note) \<Rightarrow>
               Inr \<lparr>Country = country, Plan = strip plan, Price = strip price_text,
                    Currency = currency, Amount = amount, Note = note\<rparr>))"

text \<open>Lines 66 to 77: the loop over the list items, appending to \<open>results\<close>.\<close>

fun for_li :: "string \<Rightarrow> string list \<Rightarrow> price_record list \<Rightarrow> price_record list result" where
  "for_li country [] results = Inr results"
| "for_li country (li # lis) results =
     (if CHR '':'' \<in> set li
      then (case li_record country li of
              Inl e \<Rightarrow> Inl e
            | Inr r \<Rightarrow> for_li country lis (results @ [r]))
      else for_li country lis results)"

text \<open>Lines 59 to 82: from the parsed document to the returned records.\<close>

definition collect_results :: "string \<Rightarrow> soup \<Rightarrow> price_record list result" where
  "collect_results country sp =
     (case (case find_pricing_h3 sp of
              None \<Rightarrow> Inr []
            | Some pricing_header \<Rightarrow>
                (case find_next_ul pricing_header of
                   None \<Rightarrow> Inr []
                 | Some u \<Rightarrow> for_li country (find_all_li u) [])) of
        Inl e \<Rightarrow> Inl e
      | Inr results \<Rightarrow>
          if results = []
          then Inr [\<lparr>Country = country, Plan = ''N/A'', Price = ''N/A'',
                     Currency = [], Amount = [], Note = []\<rparr>]
          else Inr results)"

text \<open>
  Lines 42 to 59: the calls on the page. The click on the cookie banner sits in its own
  \<open>try\<close> whose handler is \<open>pass\<close>: the scrape goes on whatever its outcome.
\<close>

definition fetch_soup :: "string \<Rightarrow> page \<Rightarrow> soup result" where
  \<open>fetch_soup country page =
     (case goto page ''https://help.netflix.com/en/node/24926'' 60000 of Inl e \<Rightarrow> Inl e | Inr _ \<Rightarrow>
     (case wait_for_timeout page 2000 of Inl e \<Rightarrow> Inl e | Inr _ \<Rightarrow>
     (case (case click page ''#onetrust-accept-btn-handler'' 3000 of
              Inl _ \<Rightarrow> Inr () | Inr _ \<Rightarrow> Inr ()) of Inl e \<Rightarrow> Inl e | Inr _ \<Rightarrow>
     (case click page ''div.css-hlgwow'' 5000 of Inl e \<Rightarrow> Inl e | Inr _ \<Rightarrow>
     (case wait_for_selector page ''//input[@type="text"]'' of Inl e \<Rightarrow> Inl e | Inr box \<Rightarrow>
     (case fill box [] of Inl e \<Rightarrow> Inl e | Inr _ \<Rightarrow>
     (case type_text box country of Inl e \<Rightarrow> Inl e | Inr _ \<Rightarrow>
     (case press box ''Enter'' of Inl e \<Rightarrow> Inl e | Inr _ \<Rightarrow>
     (case wait_for_timeout page 3000 of Inl e \<Rightarrow> Inl e | Inr _ \<Rightarrow>
      content page)))))))))\<close>

text \<open>The body of the outer \<open>try\<close>.\<close>

definition process_country_try :: "string \<Rightarrow> page \<Rightarrow> price_record list result" where
  "process_country_try country page =
     (case fetch_soup country page of
        Inl e \<Rightarrow> Inl e
      | Inr sp \<Rightarrow> collect_results country sp)"

text \<open>
  The console. The two progress lines are given by their parts: \<open>Done_line country\<close> is
  the line of line 81 (the success marker and the country) and \<open>Error_line country msg\<close> the
  line of line 85 (the error marker, the country and \<open>str(e)\<close>). \<open>print\<close> writes the line or
  raises, as it does with \<open>UnicodeEncodeError\<close> when the encoding of the console has no
  character for the marker.
\<close>

datatype progress_line = Done_line string | Error_line string string

record console =
  print :: "progress_line \<Rightarrow> unit result"

text \<open>
  The whole function, lines 38 to 86. The print of line 81 is the last statement inside the
  \<open>try\<close>: an exception it raises goes to the handler like any other. The print of line 85
  is inside the handler \<open>except Exception as e\<close>, before the \<open>return\<close>: an exception it
  raises leaves \<open>process_country\<close>.
\<close>

definition process_country_printing ::
  "console \<Rightarrow> string \<Rightarrow> page \<Rightarrow> price_record list result" where
  "process_country_printing out country page =
     (case (case process_country_try country page of
              Inl e \<Rightarrow> Inl e
            | Inr results \<Rightarrow>
                (case print out (Done_line country) of
                   Inl e \<Rightarrow> Inl e
                 | Inr _ \<Rightarrow> Inr results)) of
        Inr results \<Rightarrow> Inr results
      | Inl e \<Rightarrow>
          (case print out (Error_line country (message e)) of
             Inl e' \<Rightarrow> Inl e'
           | Inr _ \<Rightarrow>
               Inr [\<lparr>Country = country, Plan = ''ERROR'', Price = message e,
                     Currency = [], Amount = [], Note = []\<rparr>]))"

text \<open>
  A console that writes every line (one with the encoding UTF-8), and \<open>process_country\<close>
  on it. This is the function that \<open>main\<close> calls below; what a console that refuses a
  line changes is in \<open>process_country_printing\<close>.
\<close>

definition utf8_console :: console where
  "utf8_console = \<lparr>print = (\<lambda>line. Inr ())\<rparr>"

definition process_country :: "string \<Rightarrow> page \<Rightarrow> price_record list result" where
  "process_country country page = process_country_printing utf8_console country page"

section \<open>\<open>main\<close>: the batches\<close>

text \<open>
  The browsing context: \<open>new_page ctx j\<close> is the outcome of the call of
  \<open>context.new_page()\<close> that opens the tab of the country at position \<open>j\<close> of the list (the
  loop makes one call per country, in list order).
\<close>

record browser_context =
  new_page :: "nat \<Rightarrow> page result"

text \<open>
  What the run does to tabs and tasks, in the order in which it happens; the number is the
  position of the country in the list. \<open>Start\<close> is the moment \<open>gather\<close> schedules the
  coroutine of that country as a task (no statement of \<open>process_country\<close> runs before it),
  \<open>Finish\<close> the moment the task is done.
\<close>

datatype event = Open nat | Start nat | Finish nat | Close nat

text \<open>
  The state of the loop: \<open>results\<close> as in the source, and two logs, the slice
  \<open>countries[i:i+batch_size]\<close> of each iteration and the events.
\<close>

record run_state =
  results :: "price_record list"
  batches :: "string list list"
  events :: "event list"

definition batch_size :: nat where
  "batch_size = 5"

text \<open>
  Lines 119 to 122: one tab per country of the slice; each is kept with the position of its
  country and the coroutine's arguments.
\<close>

fun open_tabs :: "browser_context \<Rightarrow> nat \<Rightarrow> string list \<Rightarrow> (nat \<times> string \<times> page) list result" where
  "open_tabs ctx j [] = Inr []"
| "open_tabs ctx j (country # rest) =
     (case new_page ctx j of
        Inl e \<Rightarrow> Inl e
      | Inr tab \<Rightarrow>
          (case open_tabs ctx (Suc j) rest of
             Inl e \<Rightarrow> Inl e
           | Inr tabs \<Rightarrow> Inr ((j, country, tab) # tabs)))"

text \<open>Lines 128 and 129: the tabs of the batch are closed in the order they were opened.\<close>

fun close_tabs :: "page list \<Rightarrow> unit result" where
  "close_tabs [] = Inr ()"
| "close_tabs (p # ps) = (case close p of Inl e \<Rightarrow> Inl e | Inr _ \<Rightarrow> close_tabs ps)"

fun first_raised :: "'a result list \<Rightarrow> exn option" where
  "first_raised [] = None"
| "first_raised (Inl e # rs) = Some e"
| "first_raised (Inr _ # rs) = first_raised rs"

fun all_values :: "'a result list \<Rightarrow> 'a list" where
  "all_values [] = []"
| "all_values (Inl _ # rs) = all_values rs"
| "all_values (Inr v # rs) = v # all_values rs"

text \<open>
  Modelled from the spec: \<open>asyncio.gather\<close> is library code, not code of the repository. It waits for
  every task of the batch and returns their results positionally, in the order of its
  arguments and not in the order of completion; an exception raised by a task is raised
  by the \<open>await\<close>, the first one in the order of completion. The tasks are given with the
  positions of their countries, and \<open>finish_time j\<close> is the instant at which the task of
  position \<open>j\<close> is done, so that the tasks complete in the order \<open>sort_key finish_time\<close>;
  every order of completion is that of some \<open>finish_time\<close>.
\<close>

definition completion_order :: "(nat \<Rightarrow> nat) \<Rightarrow> nat list \<Rightarrow> nat list" where
  "completion_order finish_time js = sort_key finish_time js"

definition gather :: "(nat \<Rightarrow> nat) \<Rightarrow> (nat \<times> 'a result) list \<Rightarrow> 'a list result" where
  "gather finish_time tasks =
     (case first_raised (map snd (sort_key (\<lambda>(j, r). finish_time j) tasks)) of
        Some e \<Rightarrow> Inl e
      | None \<Rightarrow> Inr (all_values (map snd tasks)))"

text \<open>The events of one iteration of the loop, for the positions \<open>js\<close> of its slice.\<close>

definition batch_events :: "(nat \<Rightarrow> nat) \<Rightarrow> nat list \<Rightarrow> event list" where
  "batch_events finish_time js =
     map Open js @ map Start js @ map Finish (completion_order finish_time js) @ map Close js"

text \<open>
  Lines 115 to 129: \<open>for i in range(0, len(countries), batch_size)\<close>, as a recursion on \<open>i\<close>,
  on a console that writes every line.
  An exception raised by \<open>new_page\<close>, by the \<open>await\<close> of \<open>gather\<close> or by \<open>close\<close> ends
  \<open>main\<close>.
\<close>

function main_loop ::
  "browser_context \<Rightarrow> (nat \<Rightarrow> nat) \<Rightarrow> string list \<Rightarrow> nat \<Rightarrow> run_state \<Rightarrow> run_state result" where
  "main_loop ctx finish_time countries i st =
     (if i < length countries then
        (case open_tabs ctx i (take batch_size (drop i countries)) of
           Inl e \<Rightarrow> Inl e
         | Inr tabs \<Rightarrow>
             (case gather finish_time
                     (map (\<lambda>(j, country, tab). (j, process_country country tab)) tabs) of
                Inl e \<Rightarrow> Inl e
              | Inr batch_results \<Rightarrow>
                  (case close_tabs (map (\<lambda>(j, country, tab). tab) tabs) of
                     Inl e \<Rightarrow> Inl e
                   | Inr _ \<Rightarrow>
                       main_loop ctx finish_time countries (i + batch_size)
                         \<lparr>results = results st @ concat batch_results,
                          batches = batches st @ [take batch_size (drop i countries)],
                          events = events st @ batch_events finish_time (map fst tabs)\<rparr>)))
      else Inr st)"
  by pat_completeness auto
termination
  by (relation "measure (\<lambda>(ctx, finish_time, countries, i, st). length countries - i)")
    (auto simp: batch_size_def)

text \<open>
  \<open>main\<close> from line 112 on, for the list \<open>countries\<close> read from the bootstrap page; the
  state it returns is what is handed to the spreadsheet writer, with the two logs.
\<close>

definition main :: "browser_context \<Rightarrow> (nat \<Rightarrow> nat) \<Rightarrow> string list \<Rightarrow> run_state result" where
  "main ctx finish_time countries =
     main_loop ctx finish_time countries 0 \<lparr>results = [], batches = [], events = []\<rparr>"

section \<open>Notions of the specification\<close>

text \<open>
  An occurrence of the pattern \<open>/\s*month\<close>, case-insensitive, somewhere in a string: a
  slash, any run of whitespace, and five characters that lower to \<open>month\<close>.
\<close>

definition has_marker :: "string \<Rightarrow> bool" where
  "has_marker s \<longleftrightarrow>
     (\<exists>pre ws m post. s = pre @ CHR ''/'' # ws @ m @ post \<and>
        (\<forall>c\<in>set ws. is_space c) \<and> lower m = ''month'')"

text \<open>The text of a list item after its first colon, as it stands.\<close>

definition after_first_colon :: "string \<Rightarrow> string" where
  "after_first_colon li = tl (dropWhile (\<lambda>c. c \<noteq> CHR '':'') li)"

text \<open>The list items that \<open>process_country\<close> looks at, and those among them with a colon.\<close>

definition pricing_items :: "soup \<Rightarrow> string list" where
  "pricing_items sp =
     (case find_pricing_h3 sp of
        None \<Rightarrow> []
      | Some pricing_header \<Rightarrow>
          (case find_next_ul pricing_header of None \<Rightarrow> [] | Some u \<Rightarrow> find_all_li u))"

definition qualifying_items :: "soup \<Rightarrow> string list" where
  "qualifying_items sp = filter (\<lambda>li. CHR '':'' \<in> set li) (pricing_items sp)"

text \<open>The record that lines 68 to 77 build from a list item once the unpacking has succeeded.\<close>

definition li_row :: "string \<Rightarrow> string \<Rightarrow> price_record" where
  "li_row country li =
     (let price = strip (after_first_colon (strip li))
      in \<lparr>Country = country,
          Plan = strip (takeWhile (\<lambda>c. c \<noteq> CHR '':'') (strip li)),
          Price = price,
          Currency = fst (extract_price_details price),
          Amount = fst (snd (extract_price_details price)),
          Note = snd (snd (extract_price_details price))\<rparr>)"

definition na_record :: "string \<Rightarrow> price_record" where
  "na_record country =
     \<lparr>Country = country, Plan = ''N/A'', Price = ''N/A'', Currency = [], Amount = [], Note = []\<rparr>"

definition error_record :: "string \<Rightarrow> exn \<Rightarrow> price_record" where
  "error_record country e =
     \<lparr>Country = country, Plan = ''ERROR'', Price = message e,
      Currency = [], Amount = [], Note = []\<rparr>"

text \<open>Lines 84 to 86: what the handler does with the exception it has caught.\<close>

definition handler :: "console \<Rightarrow> string \<Rightarrow> exn \<Rightarrow> price_record list result" where
  "handler out country e =
     (case print out (Error_line country (message e)) of
        Inl e' \<Rightarrow> Inl e'
      | Inr _ \<Rightarrow> Inr [error_record country e])"

text \<open>
  The awaited calls of lines 42 to 59 other than the click on the cookie banner, in the order
  of the source, each with its outcome; the calls on the input box are there when
  \<open>wait_for_selector\<close> has returned it.
\<close>

definition fatal_calls :: "string \<Rightarrow> page \<Rightarrow> unit result list" where
  \<open>fatal_calls country page =
     [goto page ''https://help.netflix.com/en/node/24926'' 60000,
      wait_for_timeout page 2000,
      click page ''div.css-hlgwow'' 5000] @
     (case wait_for_selector page ''//input[@type="text"]'' of
        Inl e \<Rightarrow> [Inl e]
      | Inr box \<Rightarrow> [fill box [], type_text box country, press box ''Enter'']) @
     [wait_for_timeout page 3000,
      (case content page of Inl e \<Rightarrow> Inl e | Inr _ \<Rightarrow> Inr ())]\<close>

text \<open>The batch of the country at position \<open>j\<close>, and the position an event is about.\<close>

fun position :: "event \<Rightarrow> nat" where
  "position (Open j) = j"
| "position (Start j) = j"
| "position (Finish j) = j"
| "position (Close j) = j"


section \<open>Pages for the examples\<close>

definition ok_box :: input_box where
  "ok_box = \<lparr>fill = (\<lambda>text. Inr ()), type_text = (\<lambda>text. Inr ()), press = (\<lambda>key. Inr ())\<rparr>"

text \<open>
  A tab on which the cookie banner never shows (the click on it times out), every other call
  succeeds, and the rendered document is \<open>sp\<close>.
\<close>

definition page_showing :: "soup \<Rightarrow> page" where
  "page_showing sp =
     \<lparr>goto = (\<lambda>url timeout. Inr ()),
      wait_for_timeout = (\<lambda>ms. Inr ()),
      click = (\<lambda>selector timeout.
                 if selector = ''#onetrust-accept-btn-handler''
                 then Inl (Exception ''Timeout 3000ms exceeded.'') else Inr ()),
      wait_for_selector = (\<lambda>selector. Inr ok_box),
      content = Inr sp,
      close = Inr ()\<rparr>"

text \<open>A tab on which the country selector never shows: the click on it times out.\<close>

definition page_without_selector :: page where
  "page_without_selector =
     \<lparr>goto = (\<lambda>url timeout. Inr ()),
      wait_for_timeout = (\<lambda>ms. Inr ()),
      click = (\<lambda>selector timeout.
                 if selector = ''div.css-hlgwow''
                 then Inl (Exception ''Timeout 5000ms exceeded.'') else Inr ()),
      wait_for_selector = (\<lambda>selector. Inr ok_box),
      content = Inr (Soup None),
      close = Inr ()\<rparr>"

text \<open>
  A console with the encoding \<open>cp1252\<close>, which has no character for either marker: there
  \<open>print\<close> raises \<open>UnicodeEncodeError\<close>, whose \<open>str\<close> names the code point of the
  marker.
\<close>

definition marker_error :: "string \<Rightarrow> exn" where
  "marker_error code =
     Exception ([CHR 0x27] @ ''charmap'' @ [CHR 0x27] @ '' codec can't encode character '' @
                [CHR 0x27, CHR 0x5C] @ code @ [CHR 0x27] @
                '' in position 0: character maps to <undefined>'')"

definition cp1252_console :: console where
  "cp1252_console =
     \<lparr>print = (\<lambda>line. case line of
                 Done_line country \<Rightarrow> Inl (marker_error ''u2705'')
               | Error_line country msg \<Rightarrow> Inl (marker_error ''u274c''))\<rparr>"

definition pricing_list :: "string list \<Rightarrow> soup" where
  "pricing_list lis = Soup (Some (H3 (Some (Ul lis))))"

definition twelve_countries :: "string list" where
  "twelve_countries =
     [''Argentina'', ''Brazil'', ''Canada'', ''Denmark'', ''Egypt'', ''France'',
      ''Germany'', ''Hungary'', ''India'', ''Japan'', ''Kenya'', ''Latvia'']"

text \<open>A context whose every tab shows one plan, and tasks that complete in reverse order.\<close>

definition one_plan_context :: browser_context where
  "one_plan_context =
     \<lparr>new_page = (\<lambda>j. Inr (page_showing (pricing_list [''Standard: $16.49/month''])))\<rparr>"

definition last_first :: "nat \<Rightarrow> nat" where
  "last_first j = 100 - j"

section \<open>Auxiliary facts\<close>

subsection \<open>Trimming and the month pattern\<close>

lemma rev_drop_take: "rev (dropWhile P (rev xs)) @ rev (takeWhile P (rev xs)) = xs"
proof -
  have "rev (takeWhile P (rev xs) @ dropWhile P (rev xs)) = xs" by simp
  then show ?thesis by (simp only: rev_append)
qed

lemma strip_decomp: "s = takeWhile is_space s @ strip s @ rev (takeWhile is_space (rev (dropWhile is_space s)))"
  by (simp add: strip_def rev_drop_take)

lemma strip_no_lead: "dropWhile is_space (strip s) = strip s"
proof (cases "strip s")
  case Nil then show ?thesis by simp
next
  case (Cons a u)
  let ?t = "dropWhile is_space s"
  have t: "strip s @ rev (takeWhile is_space (rev ?t)) = ?t"
    unfolding strip_def by (rule rev_drop_take)
  have ne: "?t \<noteq> []"
  proof
    assume e: "?t = []"
    have "strip s = rev (dropWhile is_space (rev ?t))" by (simp only: strip_def)
    also have "\<dots> = []" by (simp only: e rev.simps dropWhile.simps)
    finally show False using Cons by simp
  qed
  then have "\<not> is_space (hd ?t)" by (rule hd_dropWhile)
  moreover have "hd ?t = a"
  proof -
    from t Cons have "?t = a # (u @ rev (takeWhile is_space (rev ?t)))" by simp
    then show ?thesis by (metis list.sel(1))
  qed
  ultimately show ?thesis using Cons by simp
qed

lemma strip_no_trail: "dropWhile is_space (rev (strip s)) = rev (strip s)"
  by (simp add: strip_def)

lemma strip_idem: "strip (strip s) = strip s"
proof -
  have "strip (strip s) = rev (dropWhile is_space (rev (dropWhile is_space (strip s))))"
    by (simp only: strip_def)
  also have "\<dots> = rev (dropWhile is_space (rev (strip s)))" by (simp only: strip_no_lead)
  also have "\<dots> = strip s" by (simp only: strip_no_trail rev_rev_ident)
  finally show ?thesis .
qed

lemma lower_m_not_space: "lower_char c = CHR ''m'' \<Longrightarrow> \<not> is_space c"
  unfolding is_space_def lower_char_def by (auto simp: Let_def)

lemma match_month_Some:
  assumes "match_month s = Some rest"
  shows "\<exists>ws m. s = CHR ''/'' # ws @ m @ rest \<and> (\<forall>c\<in>set ws. is_space c) \<and> lower m = ''month''"
proof (cases s)
  case Nil with assms show ?thesis by simp
next
  case (Cons c cs)
  let ?r = "dropWhile is_space cs"
  from assms Cons have c: "c = CHR ''/''" and m: "lower (take 5 ?r) = ''month''" and r: "rest = drop 5 ?r"
    by (simp_all split: if_splits)
  have "cs = takeWhile is_space cs @ take 5 ?r @ drop 5 ?r" by simp
  with Cons c r have "s = CHR ''/'' # takeWhile is_space cs @ take 5 ?r @ rest" by simp
  moreover have "\<forall>c\<in>set (takeWhile is_space cs). is_space c" by (auto dest: set_takeWhileD)
  ultimately show ?thesis using m by blast
qed

lemma match_month_complete:
  assumes "\<forall>c\<in>set ws. is_space c" and "lower m = ''month''"
  shows "match_month (CHR ''/'' # ws @ m @ post) = Some post"
proof -
  from assms(2) have "length (lower m) = length ''month''" by simp
  then have len: "length m = 5" by (simp add: lower_def)
  then obtain a m' where m: "m = a # m'" by (cases m) auto
  with assms(2) have "lower_char a = CHR ''m''" by (simp add: lower_def)
  then have "\<not> is_space a" by (rule lower_m_not_space)
  with assms(1) m have "dropWhile is_space (ws @ m @ post) = m @ post"
    by (simp add: dropWhile_append3)
  with len assms(2) show ?thesis by simp
qed

lemma month_split_nonempty: "month_split price_text \<noteq> []"
  by (simp add: month_split_def split: option.splits)

lemma re_search_month_Some:
  "re_search_month s = Some (before, after) \<Longrightarrow>
     \<exists>mk. s = before @ mk @ after \<and> match_month (mk @ after) = Some after"
proof (induction s arbitrary: before)
  case Nil
  then show ?case by simp
next
  case (Cons c cs)
  show ?case
  proof (cases "match_month (c # cs)")
    case (Some rest)
    with Cons.prems have b: "before = []" and a: "after = rest" by simp_all
    from Some obtain ws m where e: "c # cs = CHR ''/'' # ws @ m @ rest"
      using match_month_Some by blast
    have "c # cs = before @ (CHR ''/'' # ws @ m) @ after" using e a b by simp
    moreover have "match_month ((CHR ''/'' # ws @ m) @ after) = Some after"
      using e a Some by simp
    ultimately show ?thesis by (rule_tac x="CHR ''/'' # ws @ m" in exI) simp
  next
    case None
    with Cons.prems obtain b where s: "re_search_month cs = Some (b, after)"
      and bb: "before = c # b"
      by (auto split: option.splits)
    from Cons.IH[OF s] obtain mk where "cs = b @ mk @ after"
      "match_month (mk @ after) = Some after" by blast
    with bb show ?thesis by (rule_tac x=mk in exI) simp
  qed
qed

lemma re_search_month_None:
  "re_search_month (pre @ s) = None \<Longrightarrow> match_month s = None"
proof (induction pre)
  case Nil
  then show ?case by (cases s) (auto split: option.splits if_splits)
next
  case (Cons c pre)
  from Cons.prems have "re_search_month (pre @ s) = None"
    by (simp split: option.splits)
  then show ?case by (rule Cons.IH)
qed

lemma has_marker_iff: "has_marker s \<longleftrightarrow> re_search_month s \<noteq> None"
proof
  assume "has_marker s"
  then obtain pre ws m post where s: "s = pre @ CHR ''/'' # ws @ m @ post"
    and ws: "\<forall>c\<in>set ws. is_space c" and m: "lower m = ''month''"
    unfolding has_marker_def by blast
  from ws m have mm: "match_month (CHR ''/'' # ws @ m @ post) = Some post"
    by (rule match_month_complete)
  show "re_search_month s \<noteq> None"
  proof
    assume "re_search_month s = None"
    with s have "re_search_month (pre @ CHR ''/'' # ws @ m @ post) = None" by simp
    then have "match_month (CHR ''/'' # ws @ m @ post) = None" by (rule re_search_month_None)
    with mm show False by simp
  qed
next
  assume "re_search_month s \<noteq> None"
  then obtain before after where "re_search_month s = Some (before, after)" by auto
  then obtain mk where s: "s = before @ mk @ after"
    and mm: "match_month (mk @ after) = Some after"
    using re_search_month_Some by blast
  from match_month_Some[OF mm] obtain ws m where e: "mk @ after = CHR ''/'' # ws @ m @ after"
    and ws: "\<forall>c\<in>set ws. is_space c" and m: "lower m = ''month''" by blast
  from s e have "s = before @ CHR ''/'' # ws @ m @ after" by simp
  with ws m show "has_marker s" unfolding has_marker_def by blast
qed

lemma has_marker_strip: "has_marker (strip s) \<Longrightarrow> has_marker s"
proof -
  assume "has_marker (strip s)"
  then obtain pre ws m post where s: "strip s = pre @ CHR ''/'' # ws @ m @ post"
    and ws: "\<forall>c\<in>set ws. is_space c" and m: "lower m = ''month''"
    unfolding has_marker_def by blast
  obtain a b where "s = a @ strip s @ b" using strip_decomp by blast
  with s have "s = (a @ pre) @ CHR ''/'' # ws @ m @ (post @ b)" by simp
  with ws m show ?thesis unfolding has_marker_def by blast
qed

subsection \<open>The rows of a scrape\<close>

lemma space_not_colon: "is_space c \<Longrightarrow> c \<noteq> CHR '':''"
  by (auto simp: is_space_def)

lemma set_strip_colon: "CHR '':'' \<in> set (strip s) \<longleftrightarrow> CHR '':'' \<in> set s"
proof -
  have "set (strip s) = set (dropWhile is_space (rev (dropWhile is_space s)))"
    by (simp add: strip_def)
  have a: "\<And>t. CHR '':'' \<in> set (dropWhile is_space t) \<longleftrightarrow> CHR '':'' \<in> set t"
  proof -
    fix t :: string
    have "set t = set (takeWhile is_space t) \<union> set (dropWhile is_space t)"
      by (metis set_append takeWhile_dropWhile_id)
    moreover have "CHR '':'' \<notin> set (takeWhile is_space t)"
      using space_not_colon by (auto dest: set_takeWhileD)
    ultimately show "CHR '':'' \<in> set (dropWhile is_space t) \<longleftrightarrow> CHR '':'' \<in> set t" by auto
  qed
  have "CHR '':'' \<in> set (strip s) \<longleftrightarrow> CHR '':'' \<in> set (dropWhile is_space (rev (dropWhile is_space s)))"
    by (simp add: strip_def)
  also have "\<dots> \<longleftrightarrow> CHR '':'' \<in> set (rev (dropWhile is_space s))" by (rule a)
  also have "\<dots> \<longleftrightarrow> CHR '':'' \<in> set (dropWhile is_space s)" by simp
  also have "\<dots> \<longleftrightarrow> CHR '':'' \<in> set s" by (rule a)
  finally show ?thesis .
qed

lemma split_colon_two:
  assumes "CHR '':'' \<in> set s"
  shows "split_colon s = [takeWhile (\<lambda>c. c \<noteq> CHR '':'') s, after_first_colon s]"
proof -
  from assms have "dropWhile (\<lambda>c. c \<noteq> CHR '':'') s \<noteq> []"
    by (simp add: dropWhile_eq_Nil_conv)
  then obtain x xs where "dropWhile (\<lambda>c. c \<noteq> CHR '':'') s = x # xs"
    by (cases "dropWhile (\<lambda>c. c \<noteq> CHR '':'') s") auto
  then show ?thesis by (simp add: split_colon_def after_first_colon_def)
qed

lemma li_record_colon:
  assumes "CHR '':'' \<in> set li"
  shows "li_record country li = Inr (li_row country li)"
proof -
  from assms have "CHR '':'' \<in> set (strip li)" by (simp only: set_strip_colon)
  then have "split_colon (strip li) = [takeWhile (\<lambda>c. c \<noteq> CHR '':'') (strip li), after_first_colon (strip li)]"
    by (rule split_colon_two)
  then show ?thesis
    by (simp add: li_record_def unpack_pair_def li_row_def Let_def split: prod.splits)
qed

lemma for_li_rows:
  "for_li country lis acc = Inr (acc @ map (li_row country) (filter (\<lambda>li. CHR '':'' \<in> set li) lis))"
  by (induction lis arbitrary: acc) (simp_all add: li_record_colon)

lemma collect_results_rows:
  "collect_results country sp =
     Inr (if qualifying_items sp = [] then [na_record country]
          else map (li_row country) (qualifying_items sp))"
  by (simp add: collect_results_def qualifying_items_def pricing_items_def for_li_rows na_record_def
      split: option.splits)

lemma process_country_cases:
  "process_country country page =
     (case fetch_soup country page of
        Inl e \<Rightarrow> Inr [error_record country e]
      | Inr sp \<Rightarrow> Inr (if qualifying_items sp = [] then [na_record country]
                      else map (li_row country) (qualifying_items sp)))"
  by (simp add: process_country_def process_country_printing_def utf8_console_def
      process_country_try_def collect_results_rows error_record_def
      split: sum.splits)

lemma fetch_soup_page_showing: "fetch_soup country (page_showing sp) = Inr sp"
  by (simp add: fetch_soup_def page_showing_def ok_box_def)

lemma dropWhile_dropWhile_weaker:
  "(\<And>x. P x \<Longrightarrow> Q x) \<Longrightarrow> dropWhile Q (dropWhile P s) = dropWhile Q s"
  by (induction s) auto

lemma after_first_colon_lead: "after_first_colon (dropWhile is_space s) = after_first_colon s"
proof -
  have "dropWhile (\<lambda>c. c \<noteq> CHR '':'') (dropWhile is_space s) = dropWhile (\<lambda>c. c \<noteq> CHR '':'') s"
    by (rule dropWhile_dropWhile_weaker) (rule space_not_colon)
  then show ?thesis by (simp add: after_first_colon_def)
qed

lemma strip_append_spaces:
  assumes "\<forall>c\<in>set ws. is_space c"
  shows "strip (x @ ws) = strip x"
proof (cases "\<forall>c\<in>set x. is_space c")
  case True
  with assms have a: "dropWhile is_space (x @ ws) = []" by (simp add: dropWhile_eq_Nil_conv)
  from True have b: "dropWhile is_space x = []" by (simp add: dropWhile_eq_Nil_conv)
  show ?thesis by (simp only: strip_def a b)
next
  case False
  then obtain c where "c \<in> set x" "\<not> is_space c" by blast
  then have "dropWhile is_space (x @ ws) = dropWhile is_space x @ ws"
    by (rule dropWhile_append1)
  moreover have "dropWhile is_space (rev ws @ rev (dropWhile is_space x)) =
      dropWhile is_space (rev (dropWhile is_space x))"
    by (rule dropWhile_append2) (use assms in simp)
  ultimately show ?thesis by (simp add: strip_def)
qed

lemma after_first_colon_append:
  assumes "CHR '':'' \<in> set x"
  shows "after_first_colon (x @ ws) = after_first_colon x @ ws"
proof -
  from assms have "dropWhile (\<lambda>c. c \<noteq> CHR '':'') (x @ ws) = dropWhile (\<lambda>c. c \<noteq> CHR '':'') x @ ws"
    by (simp add: dropWhile_append1)
  moreover from assms have "dropWhile (\<lambda>c. c \<noteq> CHR '':'') x \<noteq> []"
    by (simp add: dropWhile_eq_Nil_conv)
  ultimately show ?thesis by (simp add: after_first_colon_def)
qed

lemma strip_after_first_colon:
  assumes "CHR '':'' \<in> set li"
  shows "strip (after_first_colon (strip li)) = strip (after_first_colon li)"
proof -
  let ?t = "dropWhile is_space li"
  let ?ws = "rev (takeWhile is_space (rev ?t))"
  have t: "strip li @ ?ws = ?t"
    unfolding strip_def by (rule rev_drop_take)
  have ws: "\<forall>c\<in>set ?ws. is_space c" by (auto dest: set_takeWhileD)
  from assms have c: "CHR '':'' \<in> set (strip li)" by (simp only: set_strip_colon)
  have "strip (after_first_colon li) = strip (after_first_colon ?t)"
    by (simp only: after_first_colon_lead)
  also have "\<dots> = strip (after_first_colon (strip li @ ?ws))" by (simp only: t)
  also have "\<dots> = strip (after_first_colon (strip li) @ ?ws)"
    by (simp only: after_first_colon_append[OF c])
  also have "\<dots> = strip (after_first_colon (strip li))"
    using ws by (rule strip_append_spaces)
  finally show ?thesis by simp
qed

lemma Price_li_row: "CHR '':'' \<in> set li \<Longrightarrow> Price (li_row country li) = strip (after_first_colon li)"
  by (simp add: li_row_def Let_def strip_after_first_colon)

lemma qualifying_colon: "li \<in> set (qualifying_items sp) \<Longrightarrow> CHR '':'' \<in> set li"
  by (simp add: qualifying_items_def)

lemma fatal_calls_raised:
  "first_raised (fatal_calls country page) = Some e \<Longrightarrow> fetch_soup country page = Inl e"
  by (auto simp: fatal_calls_def fetch_soup_def split: sum.splits)

subsection \<open>Character classes and rows\<close>

lemma re_search_class_first_run:
  assumes "\<forall>c\<in>set pre. \<not> X c" and "run \<noteq> []" and "\<forall>c\<in>set run. X c"
    and "post = [] \<or> \<not> X (hd post)"
  shows "re_search_class X (pre @ run @ post) = Some run"
proof -
  from assms(2) obtain a r where run: "run = a # r" by (cases run) auto
  with assms(3) have a: "X a" by simp
  from assms(1) have "dropWhile (\<lambda>c. \<not> X c) (pre @ run @ post) = dropWhile (\<lambda>c. \<not> X c) (run @ post)"
    by (simp add: dropWhile_append2)
  also have "\<dots> = run @ post" using run a by simp
  finally have d: "dropWhile (\<lambda>c. \<not> X c) (pre @ run @ post) = a # r @ post" using run by simp
  have "takeWhile X (run @ post) = run"
  proof (cases post)
    case Nil
    with assms(3) show ?thesis by simp
  next
    case (Cons b post')
    with assms(4) have "\<not> X b" by simp
    with assms(3) Cons show ?thesis by (simp add: takeWhile_append2)
  qed
  with d run show ?thesis by (simp add: re_search_class_def)
qed

lemma re_search_class_None: "re_search_class X s = None \<longleftrightarrow> (\<forall>c\<in>set s. \<not> X c)"
proof (cases "dropWhile (\<lambda>c. \<not> X c) s")
  case Nil
  then have "\<forall>c\<in>set s. \<not> X c" by (simp add: dropWhile_eq_Nil_conv)
  moreover have "re_search_class X s = None" unfolding re_search_class_def Nil by simp
  ultimately show ?thesis by blast
next
  case (Cons a r)
  then have "dropWhile (\<lambda>c. \<not> X c) s \<noteq> []" by simp
  then have "\<not> (\<forall>c\<in>set s. \<not> X c)" by (simp add: dropWhile_eq_Nil_conv)
  moreover have "re_search_class X s \<noteq> None" unfolding re_search_class_def Cons by simp
  ultimately show ?thesis by blast
qed

lemma amount_no_comma: "CHR '','' \<notin> set (fst (snd (extract_price_details price_text)))"
  by (simp add: extract_price_details_def remove_commas_def Let_def split: option.splits)

lemma process_country_rows:
  assumes "process_country country page = Inr rs" and "r \<in> set rs"
  shows "(\<exists>e. r = error_record country e) \<or> r = na_record country \<or>
         (\<exists>li. CHR '':'' \<in> set li \<and> r = li_row country li)"
proof (cases "fetch_soup country page")
  case (Inl e)
  with assms show ?thesis by (auto simp: process_country_cases)
next
  case (Inr sp)
  show ?thesis
  proof (cases "qualifying_items sp = []")
    case True
    with Inr assms show ?thesis by (auto simp: process_country_cases)
  next
    case False
    with Inr assms have "r \<in> li_row country ` set (qualifying_items sp)"
      by (auto simp: process_country_cases)
    then show ?thesis using qualifying_colon by blast
  qed
qed

subsection \<open>The loop of \<open>main\<close>\<close>

declare main_loop.simps [simp del]

lemma open_tabs_positions:
  "open_tabs ctx j cs = Inr tabs \<Longrightarrow> map fst tabs = [j..<j + length cs]"
proof (induction cs arbitrary: j tabs)
  case Nil
  then show ?case by simp
next
  case (Cons c cs)
  from Cons.prems obtain tab ts where ts: "open_tabs ctx (Suc j) cs = Inr ts"
    and tabs: "tabs = (j, c, tab) # ts"
    by (auto split: sum.splits)
  from Cons.IH[OF ts] have "map fst ts = [Suc j..<Suc j + length cs]" .
  then have "map fst ts = [Suc j..<j + length (c # cs)]" by simp
  moreover have "[j..<j + length (c # cs)] = j # [Suc j..<j + length (c # cs)]"
    by (rule upt_conv_Cons) simp
  ultimately show ?case using tabs by (simp only: list.map fst_conv)
qed

lemma open_tabs_success:
  assumes "\<forall>k<length cs. new_page ctx (j + k) = Inr (tab (j + k))"
  shows "open_tabs ctx j cs = Inr (map (\<lambda>k. (j + k, cs ! k, tab (j + k))) [0..<length cs])"
  using assms
proof (induction cs arbitrary: j)
  case Nil
  then show ?case by simp
next
  case (Cons c cs)
  from Cons.prems have h: "new_page ctx j = Inr (tab j)" by force
  from Cons.prems have "\<forall>k<length cs. new_page ctx (Suc j + k) = Inr (tab (Suc j + k))"
    by force
  then have "open_tabs ctx (Suc j) cs =
      Inr (map (\<lambda>k. (Suc j + k, cs ! k, tab (Suc j + k))) [0..<length cs])"
    by (rule Cons.IH)
  moreover have "map (\<lambda>k. (j + k, (c # cs) ! k, tab (j + k))) [0..<length (c # cs)] =
      (j, c, tab j) # map (\<lambda>k. (Suc j + k, cs ! k, tab (Suc j + k))) [0..<length cs]"
    by (simp add: upt_conv_Cons map_Suc_upt[symmetric] del: upt_Suc)
  ultimately show ?case using h by simp
qed

lemma first_raised_values: "first_raised (map Inr vs) = None"
  by (induction vs) simp_all

lemma all_values_values: "all_values (map Inr vs) = vs"
  by (induction vs) simp_all

lemma first_raised_None: "(\<forall>r\<in>set rs. \<exists>v. r = Inr v) \<Longrightarrow> first_raised rs = None"
proof (induction rs)
  case Nil
  then show ?case by simp
next
  case (Cons r rs)
  then obtain v where "r = Inr v" by auto
  with Cons show ?case by simp
qed

lemma gather_values:
  assumes "\<forall>t\<in>set tasks. \<exists>v. snd t = Inr v"
  shows "gather finish_time tasks = Inr (all_values (map snd tasks))"
proof -
  have "set (sort_key (\<lambda>(j, r). finish_time j) tasks) = set tasks" by simp
  with assms have "\<forall>r\<in>set (map snd (sort_key (\<lambda>(j, r). finish_time j) tasks)). \<exists>v. r = Inr v"
    by auto
  then have "first_raised (map snd (sort_key (\<lambda>(j, r). finish_time j) tasks)) = None"
    by (rule first_raised_None)
  then show ?thesis by (simp add: gather_def)
qed

lemma close_tabs_success: "(\<forall>p\<in>set ps. close p = Inr ()) \<Longrightarrow> close_tabs ps = Inr ()"
  by (induction ps) simp_all

lemma upt_batch:
  assumes "i < n"
  shows "[i..<n] = [i..<min (i + batch_size) n] @ [i + batch_size..<n]"
proof (cases "i + batch_size \<le> n")
  case True
  then obtain d where n: "n = (i + batch_size) + d" using le_Suc_ex by blast
  have "[i..<(i + batch_size) + d] = [i..<i + batch_size] @ [i + batch_size..<(i + batch_size) + d]"
    by (rule upt_add_eq_append) simp
  with n show ?thesis by (simp add: min_def)
next
  case False
  then show ?thesis by (simp add: min_def)
qed

lemma chunk_count: "i < n \<Longrightarrow> (n - i + 4) div 5 = Suc ((n - (i + 5) + 4) div 5)"
proof (cases "i + 5 \<le> n")
  case True
  then obtain d where n: "n = (i + 5) + d" using le_Suc_ex by blast
  then show ?thesis by simp
next
  case False
  assume "i < n"
  with False obtain d where "n = i + d" "0 < d" "d < 5"
    by (metis less_imp_add_positive not_le nat_add_left_cancel_less)
  then show ?thesis by simp
qed

lemma main_loop_logs:
  "main_loop ctx fin cs i st = Inr st' \<Longrightarrow>
     batches st' = batches st @
       map (\<lambda>k. take batch_size (drop (i + batch_size * k) cs))
         [0..<(length cs - i + 4) div 5] \<and>
     events st' = events st @
       concat (map (\<lambda>k. batch_events fin
                 [i + batch_size * k..<min (i + batch_size * k + batch_size) (length cs)])
         [0..<(length cs - i + 4) div 5])"
proof (induction ctx fin cs i st arbitrary: st' rule: main_loop.induct)
  case (1 ctx fin cs i st)
  show ?case
  proof (cases "i < length cs")
    case False
    with "1.prems" have "st' = st" by (simp add: main_loop.simps)
    moreover from False have "(length cs - i + 4) div 5 = 0" by simp
    ultimately show ?thesis by simp
  next
    case True
    let ?batch = "take batch_size (drop i cs)"
    from "1.prems" True obtain tabs br u where
      ot: "open_tabs ctx i ?batch = Inr tabs" and
      g: "gather fin (map (\<lambda>(j, country, tab). (j, process_country country tab)) tabs) = Inr br" and
      c: "close_tabs (map (\<lambda>(j, country, tab). tab) tabs) = Inr u" and
      r: "main_loop ctx fin cs (i + batch_size)
            \<lparr>results = results st @ concat br,
             batches = batches st @ [?batch],
             events = events st @ batch_events fin (map fst tabs)\<rparr> = Inr st'"
      by (subst (asm) main_loop.simps) (simp split: sum.splits)
    let ?m = "(length cs - (i + 5) + 4) div 5"
    have cnt: "(length cs - i + 4) div 5 = Suc ?m" using True by (rule chunk_count)
    from "1.IH"[OF True ot g c r]
    have b: "batches st' = (batches st @ [?batch]) @
        map (\<lambda>k. take batch_size (drop (i + batch_size + batch_size * k) cs)) [0..<?m]"
      and e: "events st' = (events st @ batch_events fin (map fst tabs)) @
        concat (map (\<lambda>k. batch_events fin
                 [i + batch_size + batch_size * k..<
                  min (i + batch_size + batch_size * k + batch_size) (length cs)]) [0..<?m])"
      by (simp_all add: batch_size_def)
    have pos: "map fst tabs = [i..<min (i + batch_size) (length cs)]"
    proof -
      from ot have "map fst tabs = [i..<i + length ?batch]" by (rule open_tabs_positions)
      moreover from True have "i + length ?batch = min (i + batch_size) (length cs)"
        by auto
      ultimately show ?thesis by simp
    qed
    have "batches st' = batches st @
       map (\<lambda>k. take batch_size (drop (i + batch_size * k) cs)) [0..<Suc ?m]"
      unfolding b map_upt_Suc by (simp add: add.assoc)
    moreover have "events st' = events st @
       concat (map (\<lambda>k. batch_events fin
                 [i + batch_size * k..<min (i + batch_size * k + batch_size) (length cs)])
         [0..<Suc ?m])"
      unfolding e map_upt_Suc pos by (simp add: add.assoc)
    ultimately show ?thesis unfolding cnt by blast
  qed
qed

lemma process_country_returns: "\<exists>rs. process_country country page = Inr rs"
  by (simp add: process_country_def process_country_printing_def utf8_console_def
      split: sum.splits)

lemma main_loop_results:
  assumes H: "\<forall>j<length cs. new_page ctx j = Inr (tab j) \<and> close (tab j) = Inr () \<and>
                process_country (cs ! j) (tab j) = Inr (recs j)"
  shows "\<exists>st'. main_loop ctx fin cs i st = Inr st' \<and>
           results st' = results st @ concat (map recs [i..<length cs])"
  using H
proof (induction ctx fin cs i st rule: main_loop.induct)
  case (1 ctx fin cs i st)
  show ?case
  proof (cases "i < length cs")
    case False
    then show ?thesis by (simp add: main_loop.simps)
  next
    case True
    let ?batch = "take batch_size (drop i cs)"
    let ?L = "length ?batch"
    let ?tabs = "map (\<lambda>k. (i + k, ?batch ! k, tab (i + k))) [0..<?L]"
    let ?br = "map (\<lambda>k. recs (i + k)) [0..<?L]"
    have L: "i + ?L = min (i + batch_size) (length cs)" using True by auto
    have in_range: "\<And>k. k < ?L \<Longrightarrow> i + k < length cs" by auto
    have nth: "\<And>k. k < ?L \<Longrightarrow> ?batch ! k = cs ! (i + k)"
      using True by (simp add: nth_drop)
    have "\<forall>k<?L. new_page ctx (i + k) = Inr (tab (i + k))"
      using "1.prems" in_range by blast
    then have ot: "open_tabs ctx i ?batch = Inr ?tabs" by (rule open_tabs_success)
    have tasks: "map (\<lambda>(j, country, tab). (j, process_country country tab)) ?tabs =
        map (\<lambda>k. (i + k, Inr (recs (i + k)))) [0..<?L]"
    proof -
      have "\<And>k. k < ?L \<Longrightarrow> process_country (?batch ! k) (tab (i + k)) = Inr (recs (i + k))"
        using "1.prems" in_range nth by metis
      then show ?thesis by simp
    qed
    have g0: "gather fin (map (\<lambda>(j, country, tab). (j, process_country country tab)) ?tabs) =
        Inr (all_values (map snd (map (\<lambda>k. (i + k, Inr (recs (i + k)))) [0..<?L])))"
      unfolding tasks by (rule gather_values) auto
    have ms: "map snd (map (\<lambda>k. (i + k, Inr (recs (i + k)))) [0..<?L]) = map Inr ?br"
      by simp
    from g0 have "gather fin
        (map (\<lambda>(j, country, tab). (j, process_country country tab)) ?tabs) =
        Inr (all_values (map Inr ?br))"
      by (simp only: ms)
    then have g: "gather fin
        (map (\<lambda>(j, country, tab). (j, process_country country tab)) ?tabs) = Inr ?br"
      by (simp only: all_values_values)
    have "\<forall>p\<in>set (map (\<lambda>(j, country, tab). tab) ?tabs). close p = Inr ()"
      using "1.prems" in_range by auto
    then have c: "close_tabs (map (\<lambda>(j, country, tab). tab) ?tabs) = Inr ()"
      by (rule close_tabs_success)
    let ?st1 = "\<lparr>results = results st @ concat ?br,
                 batches = batches st @ [?batch],
                 events = events st @ batch_events fin (map fst ?tabs)\<rparr>"
    from "1.IH"[OF True ot g c "1.prems"] obtain st' where
      r: "main_loop ctx fin cs (i + batch_size) ?st1 = Inr st'" and
      rs: "results st' = results ?st1 @ concat (map recs [i + batch_size..<length cs])"
      by blast
    have run: "main_loop ctx fin cs i st = Inr st'"
      by (subst main_loop.simps) (simp only: True if_True ot g c sum.case r)
    have "map recs [i..<min (i + batch_size) (length cs)] = ?br"
    proof -
      have "[i..<?L + i] = map (\<lambda>k. k + i) [0..<?L]" by (simp only: map_add_upt)
      then have "map recs [i..<?L + i] = map (\<lambda>k. recs (k + i)) [0..<?L]" by simp
      then show ?thesis using L by (simp add: add.commute)
    qed
    moreover have "[i..<length cs] =
        [i..<min (i + batch_size) (length cs)] @ [i + batch_size..<length cs]"
      using True by (rule upt_batch)
    ultimately have "concat (map recs [i..<length cs]) =
        concat ?br @ concat (map recs [i + batch_size..<length cs])"
      by simp
    with rs have "results st' = results st @ concat (map recs [i..<length cs])" by simp
    with run show ?thesis by blast
  qed
qed

lemma chunks_concat:
  "concat (map (\<lambda>k. take 5 (drop (5 * k) xs)) [0..<(length xs + 4) div 5]) = xs"
proof (induction xs rule: length_induct)
  case (1 xs)
  show ?case
  proof (cases "xs = []")
    case True
    then show ?thesis by simp
  next
    case False
    then have "0 < length xs" by simp
    then have cnt: "(length xs - 0 + 4) div 5 = Suc ((length xs - (0 + 5) + 4) div 5)"
      by (rule chunk_count)
    from False have "length (drop 5 xs) < length xs" by simp
    with 1 have IH: "concat (map (\<lambda>k. take 5 (drop (5 * k) (drop 5 xs)))
        [0..<(length (drop 5 xs) + 4) div 5]) = drop 5 xs" by blast
    have "concat (map (\<lambda>k. take 5 (drop (5 * k) xs)) [0..<(length xs + 4) div 5]) =
        take 5 xs @ concat (map (\<lambda>k. take 5 (drop (5 * k) (drop 5 xs)))
          [0..<(length (drop 5 xs) + 4) div 5])"
      using cnt by (simp add: map_upt_Suc add.commute del: upt_Suc)
    with IH show ?thesis by simp
  qed
qed





lemma main_events:
  assumes "main ctx fin cs = Inr st"
  shows "events st = concat (map (\<lambda>k. batch_events fin
            [batch_size * k..<min (batch_size * k + batch_size) (length cs)])
          [0..<(length cs + 4) div 5])"
    and "batches st = map (\<lambda>k. take batch_size (drop (batch_size * k) cs))
          [0..<(length cs + 4) div 5]"
  using main_loop_logs[OF assms[unfolded main_def]] by simp_all





lemma main_returns_results:
  assumes H: "\<forall>j<length countries. new_page ctx j = Inr (tab j) \<and> close (tab j) = Inr () \<and>
        process_country (countries ! j) (tab j) = Inr (recs j)"
  shows "\<exists>st. main ctx finish_time countries = Inr st \<and> results st = concat (map recs [0..<length countries])"
  using main_loop_results[OF H, of finish_time 0 "\<lparr>results = [], batches = [], events = []\<rparr>"]
  unfolding main_def by simp

lemma main_batches:
  assumes run: "main ctx finish_time countries = Inr st"
  shows "batches st = map (\<lambda>k. take 5 (drop (5 * k) countries)) [0..<(length countries + 4) div 5]"
  using main_events(2)[OF run] by (simp add: batch_size_def)

lemma main_batches_concat:
  assumes b: "batches st = map (\<lambda>k. take 5 (drop (5 * k) countries)) [0..<(length countries + 4) div 5]"
  shows "concat (batches st) = countries"
  unfolding b by (rule chunks_concat)

lemma main_batches_twelve:
  assumes b: "batches st = map (\<lambda>k. take 5 (drop (5 * k) countries)) [0..<(length countries + 4) div 5]"
    and l: "length countries = 12"
  shows "map length (batches st) = [5, 5, 2]"
proof -
  have "[0..<(12 + 4) div 5] = [0, 1, 2::nat]" by (simp add: upt_rec)
  then have "batches st = map (\<lambda>k. take 5 (drop (5 * k) countries)) [0, 1, 2]"
    using b l by simp
  then show ?thesis using l by simp
qed


subsection \<open>The progress lines\<close>

lemma process_country_printing_cases:
  "process_country_printing out country page =
     (case fetch_soup country page of
        Inl e \<Rightarrow> handler out country e
      | Inr sp \<Rightarrow>
          (case print out (Done_line country) of
             Inl e \<Rightarrow> handler out country e
           | Inr _ \<Rightarrow> Inr (if qualifying_items sp = [] then [na_record country]
                           else map (li_row country) (qualifying_items sp))))"
  by (simp add: process_country_printing_def process_country_try_def collect_results_rows
      handler_def error_record_def split: sum.splits)

lemma fetch_soup_cookie:
  "fetch_soup country
     (page\<lparr>click := (\<lambda>selector timeout.
        if selector = ''#onetrust-accept-btn-handler'' then r else click page selector timeout)\<rparr>) =
   fetch_soup country page"
  by (simp add: fetch_soup_def split: sum.splits)

lemma fatal_calls_none:
  "first_raised (fatal_calls country page) = None \<Longrightarrow> \<exists>sp. fetch_soup country page = Inr sp"
  by (auto simp: fatal_calls_def fetch_soup_def split: sum.splits)

lemma process_country_printing_accepted:
  assumes "print out (Done_line country) = Inr ()"
    and "\<forall>msg. print out (Error_line country msg) = Inr ()"
  shows "process_country_printing out country page = process_country country page"
  using assms
  by (simp add: process_country_printing_cases process_country_cases handler_def split: sum.splits)

subsection \<open>Evaluation on the examples\<close>

lemmas eval_defs =
  extract_price_details_def no_month_def lower_def lower_char_def price_part_def
  month_split_def strip_def is_space_def note_part_def re_search_class_def number_char_def
  currency_char_def is_digit_def remove_commas_def sublist_code(3)

lemma li_row_standard:
  "li_row ''Canada'' ''Standard: $16.49/month'' =
     \<lparr>Country = ''Canada'', Plan = ''Standard'', Price = ''$16.49/month'',
      Currency = ''$'', Amount = ''16.49'', Note = []\<rparr>"
  by (simp add: li_row_def after_first_colon_def eval_defs)

lemma qualifying_items_single:
  "CHR '':'' \<in> set li \<Longrightarrow> qualifying_items (pricing_list [li]) = [li]"
  by (simp add: qualifying_items_def pricing_items_def pricing_list_def)

lemma process_country_standard:
  "process_country ''Canada'' (page_showing (pricing_list [''Standard: $16.49/month''])) =
     Inr [\<lparr>Country = ''Canada'', Plan = ''Standard'', Price = ''$16.49/month'',
           Currency = ''$'', Amount = ''16.49'', Note = []\<rparr>]"
  by (simp add: process_country_cases fetch_soup_page_showing qualifying_items_single
      li_row_standard)

lemma one_plan_scrape:
  "process_country country (page_showing (pricing_list [''Standard: $16.49/month''])) =
     Inr [li_row country ''Standard: $16.49/month'']"
  by (simp add: process_country_cases fetch_soup_page_showing qualifying_items_single)


section \<open>Properties of \<open>extract_price_details\<close>\<close>

text \<open>
  C4: for every string that is empty or whose lower-cased text does not contain \<open>month\<close>,
  \<open>extract_price_details\<close> returns \<open>Unknown\<close>, the empty amount and the input itself,
  unchanged, as third component; in particular the empty string gives
  \<open>(Unknown, empty, empty)\<close>.
\<close>

theorem extract_price_details_passthrough:
  "(price_text = [] \<or> \<not> sublist ''month'' (lower price_text) \<longrightarrow>
      extract_price_details price_text = (''Unknown'', [], price_text)) \<and>
   extract_price_details [] = (''Unknown'', [], [])"
  by (simp add: extract_price_details_def no_month_def)

theorem extract_price_details_passthrough_witness:
  "\<not> sublist ''month'' (lower ''Free of charge'') \<and>
   extract_price_details ''Free of charge'' = (''Unknown'', [], ''Free of charge'')"
proof -
  have h: "\<not> sublist ''month'' (lower ''Free of charge'')"
    by code_simp
  with extract_price_details_passthrough [of "''Free of charge''"] show ?thesis
    by blast
qed

text \<open>
  C5: on the text below the pattern occurs twice. \<open>re.split\<close> cuts at both, and the note is
  the piece between them: the text after the second occurrence, and the second occurrence
  itself, are lost, where the claim keeps everything after the first occurrence.
\<close>

theorem note_stops_at_second_marker:
  "extract_price_details ''$7.99/month for 3 months, then $15.49/month'' =
     (''$'', ''7.99'', ''for 3 months, then $15.49'')"
  by (simp add: eval_defs)

text \<open>
  C6, as stated, fails: the price segment \<open>Rs.\<close> has no digit, and the amount is the period,
  not the empty string.
\<close>

theorem amount_of_period_alone:
  "filter is_digit (price_part ''Rs./month'') = [] \<and>
   extract_price_details ''Rs./month'' = (''Rs'', ''.'', [])"
  by (simp add: eval_defs)

text \<open>
  C6, amended: for an input with the month marker, the amount is the first maximal run of
  digits, commas and periods of the price segment (\<open>price_part\<close>, line 22) with the commas
  removed; it is empty when the segment has no digit, comma or period; and no record that
  \<open>process_country\<close> returns has a comma in its amount.
\<close>

theorem amount_is_first_run:
  "(\<not> no_month price_text \<and> price_part price_text = pre @ run @ post \<and>
    (\<forall>c\<in>set pre. \<not> number_char c) \<and> run \<noteq> [] \<and> (\<forall>c\<in>set run. number_char c) \<and>
    (post = [] \<or> \<not> number_char (hd post)) \<longrightarrow>
      fst (snd (extract_price_details price_text)) = filter (\<lambda>c. c \<noteq> CHR '','') run) \<and>
   (\<not> no_month price_text \<and> (\<forall>c\<in>set (price_part price_text). \<not> number_char c) \<longrightarrow>
      fst (snd (extract_price_details price_text)) = []) \<and>
   (\<forall>rs. process_country country page = Inr rs \<longrightarrow>
      (\<forall>r\<in>set rs. CHR '','' \<notin> set (Amount r)))"
proof (intro conjI impI allI ballI)
  assume h: "\<not> no_month price_text \<and> price_part price_text = pre @ run @ post \<and>
    (\<forall>c\<in>set pre. \<not> number_char c) \<and> run \<noteq> [] \<and> (\<forall>c\<in>set run. number_char c) \<and>
    (post = [] \<or> \<not> number_char (hd post))"
  then have "re_search_class number_char (pre @ run @ post) = Some run"
    by (intro re_search_class_first_run) simp_all
  with h show "fst (snd (extract_price_details price_text)) = filter (\<lambda>c. c \<noteq> CHR '','') run"
    by (simp add: extract_price_details_def remove_commas_def Let_def)
next
  assume h: "\<not> no_month price_text \<and> (\<forall>c\<in>set (price_part price_text). \<not> number_char c)"
  then have "re_search_class number_char (price_part price_text) = None"
    by (simp add: re_search_class_None)
  with h show "fst (snd (extract_price_details price_text)) = []"
    by (simp add: extract_price_details_def Let_def)
next
  fix rs r
  assume "process_country country page = Inr rs" and "r \<in> set rs"
  then have "(\<exists>e. r = error_record country e) \<or> r = na_record country \<or>
         (\<exists>li. CHR '':'' \<in> set li \<and> r = li_row country li)"
    by (rule process_country_rows)
  then show "CHR '','' \<notin> set (Amount r)"
    by (auto simp: error_record_def na_record_def li_row_def Let_def amount_no_comma)
qed

theorem amount_is_first_run_witness:
  "\<not> no_month ''$1,299.00/month'' \<and>
   price_part ''$1,299.00/month'' = ''$'' @ ''1,299.00'' @ [] \<and>
   fst (snd (extract_price_details ''$1,299.00/month'')) = ''1299.00'' \<and>
   \<not> no_month ''Free/month'' \<and>
   fst (snd (extract_price_details ''Free/month'')) = [] \<and>
   CHR '','' \<notin> set (Amount \<lparr>Country = ''Canada'', Plan = ''Standard'', Price = ''$16.49/month'',
                              Currency = ''$'', Amount = ''16.49'', Note = []\<rparr>)"
proof -
  have a: "\<not> no_month ''$1,299.00/month''" by (simp add: eval_defs)
  have b: "price_part ''$1,299.00/month'' = ''$'' @ ''1,299.00'' @ []" by (simp add: eval_defs)
  have c: "\<forall>c\<in>set ''$''. \<not> number_char c" by (simp add: eval_defs)
  have d: "\<forall>c\<in>set ''1,299.00''. number_char c" by (simp add: eval_defs)
  have e: "\<not> no_month ''Free/month''" by (simp add: eval_defs)
  have f: "\<forall>c\<in>set (price_part ''Free/month''). \<not> number_char c" by (simp add: eval_defs)
  from amount_is_first_run [of "''$1,299.00/month''" "''$''" "''1,299.00''" "[]"] a b c d
  have 1: "fst (snd (extract_price_details ''$1,299.00/month'')) = ''1299.00''" by simp
  from amount_is_first_run [of "''Free/month''"] e f
  have 2: "fst (snd (extract_price_details ''Free/month'')) = []" by blast
  from amount_is_first_run
    [of _ _ _ _ "''Canada''" "page_showing (pricing_list [''Standard: $16.49/month''])"]
    process_country_standard
  have 3: "CHR '','' \<notin> set (Amount \<lparr>Country = ''Canada'', Plan = ''Standard'',
      Price = ''$16.49/month'', Currency = ''$'', Amount = ''16.49'', Note = []\<rparr>)"
    by simp
  from a b 1 e 2 3 show ?thesis by blast
qed

text \<open>
  C10: for every input whose lower-cased text contains \<open>month\<close> and in which the pattern
  \<open>/\s*month\<close> does not occur, \<open>extract_price_details\<close> does not take the passthrough
  branch: the note is empty, and the currency token and the amount are those of the whole
  trimmed input.
\<close>

theorem month_without_slash:
  "sublist ''month'' (lower price_text) \<and> \<not> has_marker price_text \<longrightarrow>
     extract_price_details price_text =
       ((case re_search_class currency_char (strip price_text) of
           Some g \<Rightarrow> g | None \<Rightarrow> ''Unknown''),
        (case re_search_class number_char (strip price_text) of
           Some g \<Rightarrow> remove_commas g | None \<Rightarrow> []),
        [])"
proof
  assume h: "sublist ''month'' (lower price_text) \<and> \<not> has_marker price_text"
  then have ne: "price_text \<noteq> []" by (auto simp: lower_def)
  from h have "\<not> has_marker (strip price_text)" using has_marker_strip by blast
  then have "re_search_month (strip price_text) = None" using has_marker_iff by blast
  then have ms: "month_split price_text = [strip price_text]" by (simp add: month_split_def)
  then have "price_part price_text = strip price_text" and "note_part price_text = []"
    by (simp_all add: price_part_def note_part_def strip_idem)
  with h ne show "extract_price_details price_text =
       ((case re_search_class currency_char (strip price_text) of
           Some g \<Rightarrow> g | None \<Rightarrow> ''Unknown''),
        (case re_search_class number_char (strip price_text) of
           Some g \<Rightarrow> remove_commas g | None \<Rightarrow> []),
        [])"
    by (simp add: extract_price_details_def no_month_def Let_def)
qed

theorem month_without_slash_witness:
  "sublist ''month'' (lower ''15.49 per month'') \<and> \<not> has_marker ''15.49 per month'' \<and>
   extract_price_details ''15.49 per month'' = (''per'', ''15.49'', [])"
proof -
  have a: "sublist ''month'' (lower ''15.49 per month'')" by (simp add: eval_defs)
  have "re_search_month ''15.49 per month'' = None" by (simp add: eval_defs)
  then have b: "\<not> has_marker ''15.49 per month''" by (simp add: has_marker_iff)
  have c: "re_search_class currency_char (strip ''15.49 per month'') = Some ''per''"
    by (simp add: eval_defs)
  have d: "re_search_class number_char (strip ''15.49 per month'') = Some ''15.49''"
    by (simp add: eval_defs)
  from month_without_slash [of "''15.49 per month''"] a b c d show ?thesis
    by (simp add: remove_commas_def)
qed

section \<open>Properties of \<open>process_country\<close>\<close>



text \<open>
  C2, as stated, fails in two ways. On the page below the click on the cookie banner raises (a
  timeout), and the scrape goes on and returns the row of the plan, not an \<open>ERROR\<close> record.
  And on a console that cannot encode the markers the print of line 81 raises, the handler
  catches that, and the print of line 85 raises inside the handler: \<open>process_country\<close>
  throws.
\<close>

theorem cookie_swallowed_and_print_escapes:
  "click (page_showing (pricing_list [''Standard: $16.49/month'']))
     ''#onetrust-accept-btn-handler'' 3000 = Inl (Exception ''Timeout 3000ms exceeded.'') \<and>
   process_country_printing utf8_console ''Canada''
     (page_showing (pricing_list [''Standard: $16.49/month''])) =
     Inr [\<lparr>Country = ''Canada'', Plan = ''Standard'', Price = ''$16.49/month'',
           Currency = ''$'', Amount = ''16.49'', Note = []\<rparr>] \<and>
   process_country_printing cp1252_console ''Canada''
     (page_showing (pricing_list [''Standard: $16.49/month''])) =
     Inl (marker_error ''u274c'')"
proof -
  have c: "click (page_showing (pricing_list [''Standard: $16.49/month'']))
     ''#onetrust-accept-btn-handler'' 3000 = Inl (Exception ''Timeout 3000ms exceeded.'')"
    by (simp add: page_showing_def)
  have p: "process_country_printing utf8_console ''Canada''
     (page_showing (pricing_list [''Standard: $16.49/month''])) =
     Inr [\<lparr>Country = ''Canada'', Plan = ''Standard'', Price = ''$16.49/month'',
           Currency = ''$'', Amount = ''16.49'', Note = []\<rparr>]"
    by (simp add: process_country_printing_cases fetch_soup_page_showing utf8_console_def
        qualifying_items_single li_row_standard)
  have q: "process_country_printing cp1252_console ''Canada''
     (page_showing (pricing_list [''Standard: $16.49/month''])) =
     Inl (marker_error ''u274c'')"
    by (simp add: process_country_printing_cases fetch_soup_page_showing cp1252_console_def
        handler_def)
  from c p q show ?thesis by (intro conjI)
qed

text \<open>
  C2, amended. Whatever the click on the cookie banner returns or raises, the result is the
  same. The first exception raised by another call on the page, or by the print of line 81,
  is caught by the handler: when the print of line 85 returns, the result is the single
  record with plan \<open>ERROR\<close>, the exception's message as price and the other fields empty;
  when that print raises, \<open>process_country\<close> throws what it raised. It throws nothing
  else, and on a console that accepts both progress lines it never throws.
\<close>

theorem process_country_failures:
  "(\<forall>r. process_country_printing out country
          (page\<lparr>click := (\<lambda>selector timeout.
             if selector = ''#onetrust-accept-btn-handler'' then r
             else click page selector timeout)\<rparr>) =
        process_country_printing out country page) \<and>
   (\<forall>e. (first_raised (fatal_calls country page) = Some e \<or>
         first_raised (fatal_calls country page) = None \<and>
         print out (Done_line country) = Inl e) \<and>
        print out (Error_line country (message e)) = Inr () \<longrightarrow>
      process_country_printing out country page =
        Inr [\<lparr>Country = country, Plan = ''ERROR'', Price = message e,
              Currency = [], Amount = [], Note = []\<rparr>]) \<and>
   (\<forall>e e'. (first_raised (fatal_calls country page) = Some e \<or>
            first_raised (fatal_calls country page) = None \<and>
            print out (Done_line country) = Inl e) \<and>
           print out (Error_line country (message e)) = Inl e' \<longrightarrow>
      process_country_printing out country page = Inl e') \<and>
   (\<forall>e'. process_country_printing out country page = Inl e' \<longrightarrow>
      (\<exists>msg. print out (Error_line country msg) = Inl e')) \<and>
   (print out (Done_line country) = Inr () \<and>
    (\<forall>msg. print out (Error_line country msg) = Inr ()) \<longrightarrow>
      process_country_printing out country page = process_country country page \<and>
      (\<exists>rs. process_country_printing out country page = Inr rs))"
proof -
  have 1: "\<forall>r. process_country_printing out country
          (page\<lparr>click := (\<lambda>selector timeout.
             if selector = ''#onetrust-accept-btn-handler'' then r
             else click page selector timeout)\<rparr>) =
        process_country_printing out country page"
    by (simp add: process_country_printing_cases fetch_soup_cookie)
  have h: "\<And>e. first_raised (fatal_calls country page) = Some e \<or>
         first_raised (fatal_calls country page) = None \<and>
         print out (Done_line country) = Inl e \<Longrightarrow>
      process_country_printing out country page = handler out country e"
  proof -
    fix e
    assume "first_raised (fatal_calls country page) = Some e \<or>
         first_raised (fatal_calls country page) = None \<and>
         print out (Done_line country) = Inl e"
    then show "process_country_printing out country page = handler out country e"
    proof
      assume "first_raised (fatal_calls country page) = Some e"
      then have "fetch_soup country page = Inl e" by (rule fatal_calls_raised)
      then show ?thesis by (simp add: process_country_printing_cases)
    next
      assume a: "first_raised (fatal_calls country page) = None \<and>
         print out (Done_line country) = Inl e"
      then obtain sp where "fetch_soup country page = Inr sp" using fatal_calls_none by blast
      with a show ?thesis by (simp add: process_country_printing_cases)
    qed
  qed
  have 2: "\<forall>e. (first_raised (fatal_calls country page) = Some e \<or>
         first_raised (fatal_calls country page) = None \<and>
         print out (Done_line country) = Inl e) \<and>
        print out (Error_line country (message e)) = Inr () \<longrightarrow>
      process_country_printing out country page =
        Inr [\<lparr>Country = country, Plan = ''ERROR'', Price = message e,
              Currency = [], Amount = [], Note = []\<rparr>]"
  proof (intro allI impI, elim conjE)
    fix e
    assume a: "first_raised (fatal_calls country page) = Some e \<or>
         first_raised (fatal_calls country page) = None \<and>
         print out (Done_line country) = Inl e"
      and p: "print out (Error_line country (message e)) = Inr ()"
    from h[OF a] p show "process_country_printing out country page =
        Inr [\<lparr>Country = country, Plan = ''ERROR'', Price = message e,
              Currency = [], Amount = [], Note = []\<rparr>]"
      by (simp add: handler_def error_record_def)
  qed
  have 3: "\<forall>e e'. (first_raised (fatal_calls country page) = Some e \<or>
            first_raised (fatal_calls country page) = None \<and>
            print out (Done_line country) = Inl e) \<and>
           print out (Error_line country (message e)) = Inl e' \<longrightarrow>
      process_country_printing out country page = Inl e'"
  proof (intro allI impI, elim conjE)
    fix e e'
    assume a: "first_raised (fatal_calls country page) = Some e \<or>
         first_raised (fatal_calls country page) = None \<and>
         print out (Done_line country) = Inl e"
      and p: "print out (Error_line country (message e)) = Inl e'"
    from h[OF a] p show "process_country_printing out country page = Inl e'"
      by (simp add: handler_def)
  qed
  have 4: "\<forall>e'. process_country_printing out country page = Inl e' \<longrightarrow>
      (\<exists>msg. print out (Error_line country msg) = Inl e')"
    by (auto simp: process_country_printing_cases handler_def split: sum.splits)
  have 5: "print out (Done_line country) = Inr () \<and>
    (\<forall>msg. print out (Error_line country msg) = Inr ()) \<longrightarrow>
      process_country_printing out country page = process_country country page \<and>
      (\<exists>rs. process_country_printing out country page = Inr rs)"
  proof
    assume a: "print out (Done_line country) = Inr () \<and>
      (\<forall>msg. print out (Error_line country msg) = Inr ())"
    then have "process_country_printing out country page = process_country country page"
      by (intro process_country_printing_accepted) simp_all
    moreover obtain rs where "process_country country page = Inr rs"
      using process_country_returns by blast
    ultimately show "process_country_printing out country page = process_country country page \<and>
      (\<exists>rs. process_country_printing out country page = Inr rs)"
      by simp
  qed
  from 1 2 3 4 5 show ?thesis by (intro conjI)
qed

theorem process_country_failures_witness:
  "first_raised (fatal_calls ''Wakanda'' page_without_selector) =
     Some (Exception ''Timeout 5000ms exceeded.'') \<and>
   print utf8_console (Error_line ''Wakanda'' ''Timeout 5000ms exceeded.'') = Inr () \<and>
   process_country_printing utf8_console ''Wakanda'' page_without_selector =
     Inr [\<lparr>Country = ''Wakanda'', Plan = ''ERROR'', Price = ''Timeout 5000ms exceeded.'',
           Currency = [], Amount = [], Note = []\<rparr>] \<and>
   print cp1252_console (Error_line ''Wakanda'' ''Timeout 5000ms exceeded.'') =
     Inl (marker_error ''u274c'') \<and>
   process_country_printing cp1252_console ''Wakanda'' page_without_selector =
     Inl (marker_error ''u274c'')"
proof -
  have f: "first_raised (fatal_calls ''Wakanda'' page_without_selector) =
     Some (Exception ''Timeout 5000ms exceeded.'')"
    by (simp add: fatal_calls_def page_without_selector_def ok_box_def)
  have u: "print utf8_console (Error_line ''Wakanda'' ''Timeout 5000ms exceeded.'') = Inr ()"
    by (simp add: utf8_console_def)
  have c: "print cp1252_console (Error_line ''Wakanda'' ''Timeout 5000ms exceeded.'') =
     Inl (marker_error ''u274c'')"
    by (simp add: cp1252_console_def)
  note t1 = process_country_failures [of utf8_console "''Wakanda''" page_without_selector]
  note t2 = process_country_failures [of cp1252_console "''Wakanda''" page_without_selector]
  from t1 f u have a: "process_country_printing utf8_console ''Wakanda'' page_without_selector =
     Inr [\<lparr>Country = ''Wakanda'', Plan = ''ERROR'', Price = ''Timeout 5000ms exceeded.'',
           Currency = [], Amount = [], Note = []\<rparr>]"
    by simp
  from t2 f c have b: "process_country_printing cp1252_console ''Wakanda'' page_without_selector =
     Inl (marker_error ''u274c'')"
    by simp
  from f u a c b show ?thesis by (intro conjI)
qed

text \<open>
  C9, as stated, fails: for the item \<open>Standard: $16.49/month\<close> the text after the first colon
  starts with a space, and the price of the record does not.
\<close>

theorem price_is_not_raw_text:
  "after_first_colon ''Standard: $16.49/month'' = '' $16.49/month'' \<and>
   map_sum id (map Price)
     (process_country ''Canada'' (page_showing (pricing_list [''Standard: $16.49/month'']))) =
     Inr [''$16.49/month'']"
proof -
  have a: "after_first_colon ''Standard: $16.49/month'' = '' $16.49/month''"
    by (simp add: after_first_colon_def)
  have "map_sum id (map Price)
     (process_country ''Canada'' (page_showing (pricing_list [''Standard: $16.49/month'']))) =
     Inr [''$16.49/month'']"
    by (simp add: process_country_standard)
  with a show ?thesis by simp
qed

text \<open>
  C9, amended: when the scrape reaches the document and it has items with a colon, the
  prices of the records are, item by item, the text after the first colon of the item with
  leading and trailing whitespace trimmed.
\<close>

theorem price_is_trimmed:
  "fetch_soup country page = Inr sp \<and> qualifying_items sp \<noteq> [] \<longrightarrow>
     (\<exists>rs. process_country country page = Inr rs \<and>
        map Price rs = map (\<lambda>li. strip (after_first_colon li)) (qualifying_items sp))"
  by (auto simp: process_country_cases Price_li_row dest: qualifying_colon)

theorem price_is_trimmed_witness:
  "fetch_soup ''Canada'' (page_showing (pricing_list [''Standard: $16.49/month''])) =
     Inr (pricing_list [''Standard: $16.49/month'']) \<and>
   qualifying_items (pricing_list [''Standard: $16.49/month'']) \<noteq> [] \<and>
   (\<exists>rs. process_country ''Canada'' (page_showing (pricing_list [''Standard: $16.49/month''])) =
           Inr rs \<and> map Price rs = [''$16.49/month''])"
proof -
  have f: "fetch_soup ''Canada'' (page_showing (pricing_list [''Standard: $16.49/month''])) =
     Inr (pricing_list [''Standard: $16.49/month''])"
    by (rule fetch_soup_page_showing)
  have q: "qualifying_items (pricing_list [''Standard: $16.49/month'']) =
     [''Standard: $16.49/month'']"
    by (simp add: qualifying_items_single)
  have t: "strip (after_first_colon ''Standard: $16.49/month'') = ''$16.49/month''"
    by (simp add: after_first_colon_def strip_def is_space_def)
  from price_is_trimmed
    [of "''Canada''" "page_showing (pricing_list [''Standard: $16.49/month''])"
        "pricing_list [''Standard: $16.49/month'']"] f q t
  show ?thesis by simp
qed

text \<open>
  C7, as stated, fails: the price text \<open>$9.99\<close> has no month marker (and has a currency
  token), and the currency of its record is \<open>Unknown\<close>.
\<close>

theorem unknown_without_month:
  "process_country ''Canada'' (page_showing (pricing_list [''Basic: $9.99''])) =
     Inr [\<lparr>Country = ''Canada'', Plan = ''Basic'', Price = ''$9.99'',
           Currency = ''Unknown'', Amount = [], Note = ''$9.99''\<rparr>] \<and>
   \<not> sublist ''month'' (lower ''$9.99'')"
proof -
  have "li_row ''Canada'' ''Basic: $9.99'' =
     \<lparr>Country = ''Canada'', Plan = ''Basic'', Price = ''$9.99'',
      Currency = ''Unknown'', Amount = [], Note = ''$9.99''\<rparr>"
    by (simp add: li_row_def Let_def after_first_colon_def eval_defs)
  then have "process_country ''Canada'' (page_showing (pricing_list [''Basic: $9.99''])) =
     Inr [\<lparr>Country = ''Canada'', Plan = ''Basic'', Price = ''$9.99'',
           Currency = ''Unknown'', Amount = [], Note = ''$9.99''\<rparr>]"
    by (simp add: process_country_cases fetch_soup_page_showing qualifying_items_single)
  moreover have "\<not> sublist ''month'' (lower ''$9.99'')"
    by (simp add: eval_defs)
  ultimately show ?thesis by simp
qed

text \<open>
  C7, amended: the currency of a record is \<open>Unknown\<close> only when its price text is empty or
  lacks \<open>month\<close> (the passthrough branch), or has it while the price segment has no
  currency token, or the first currency token of the segment is itself \<open>Unknown\<close>.
\<close>

theorem unknown_currency_only_when:
  "\<forall>rs. process_country country page = Inr rs \<longrightarrow>
     (\<forall>r\<in>set rs. Currency r = ''Unknown'' \<longrightarrow>
        Price r = [] \<or> \<not> sublist ''month'' (lower (Price r)) \<or>
        (\<forall>c\<in>set (price_part (Price r)). \<not> currency_char c) \<or>
        re_search_class currency_char (price_part (Price r)) = Some ''Unknown'')"
proof (intro allI impI ballI)
  fix rs r
  assume "process_country country page = Inr rs" and "r \<in> set rs"
    and u: "Currency r = ''Unknown''"
  then have "(\<exists>e. r = error_record country e) \<or> r = na_record country \<or>
         (\<exists>li. CHR '':'' \<in> set li \<and> r = li_row country li)"
    by (intro process_country_rows)
  with u obtain li where r: "r = li_row country li"
    by (auto simp: error_record_def na_record_def)
  then have c: "Currency r = fst (extract_price_details (Price r))"
    by (simp add: li_row_def Let_def)
  show "Price r = [] \<or> \<not> sublist ''month'' (lower (Price r)) \<or>
        (\<forall>c\<in>set (price_part (Price r)). \<not> currency_char c) \<or>
        re_search_class currency_char (price_part (Price r)) = Some ''Unknown''"
  proof (cases "no_month (Price r)")
    case True
    then show ?thesis by (auto simp: no_month_def)
  next
    case False
    show ?thesis
    proof (cases "re_search_class currency_char (price_part (Price r))")
      case None
      then show ?thesis by (simp add: re_search_class_None)
    next
      case (Some g)
      with False c u show ?thesis by (simp add: extract_price_details_def Let_def)
    qed
  qed
qed

theorem unknown_currency_only_when_witness:
  "process_country ''India'' (page_showing (pricing_list [''Premium: 22.99/month''])) =
     Inr [\<lparr>Country = ''India'', Plan = ''Premium'', Price = ''22.99/month'',
           Currency = ''Unknown'', Amount = ''22.99'', Note = []\<rparr>] \<and>
   (''22.99/month'' = [] \<or> \<not> sublist ''month'' (lower ''22.99/month'') \<or>
    (\<forall>c\<in>set (price_part ''22.99/month''). \<not> currency_char c) \<or>
    re_search_class currency_char (price_part ''22.99/month'') = Some ''Unknown'')"
proof -
  have "li_row ''India'' ''Premium: 22.99/month'' =
     \<lparr>Country = ''India'', Plan = ''Premium'', Price = ''22.99/month'',
      Currency = ''Unknown'', Amount = ''22.99'', Note = []\<rparr>"
    by (simp add: li_row_def Let_def after_first_colon_def eval_defs)
  then have p: "process_country ''India'' (page_showing (pricing_list [''Premium: 22.99/month''])) =
     Inr [\<lparr>Country = ''India'', Plan = ''Premium'', Price = ''22.99/month'',
           Currency = ''Unknown'', Amount = ''22.99'', Note = []\<rparr>]"
    by (simp add: process_country_cases fetch_soup_page_showing qualifying_items_single)
  from unknown_currency_only_when
    [of "''India''" "page_showing (pricing_list [''Premium: 22.99/month''])"] p
  show ?thesis by simp
qed

section \<open>Properties of \<open>main\<close>\<close>

text \<open>
  C3: when every tab opens and closes, \<open>main\<close> returns, whatever the order in which the
  tasks of a batch complete. The slices it works through are the consecutive batches of five
  countries (the last one shorter), they concatenate to the list of countries, twelve
  countries give three batches of sizes 5, 5 and 2, and the results are the records of the
  countries concatenated in list order.
\<close>

theorem batches_in_list_order:
  "(\<forall>j<length countries. new_page ctx j = Inr (tab j) \<and> close (tab j) = Inr () \<and>
        process_country (countries ! j) (tab j) = Inr (recs j)) \<longrightarrow>
   (\<exists>st. main ctx finish_time countries = Inr st \<and>
      batches st = map (\<lambda>k. take 5 (drop (5 * k) countries)) [0..<(length countries + 4) div 5] \<and>
      concat (batches st) = countries \<and>
      (length countries = 12 \<longrightarrow> map length (batches st) = [5, 5, 2]) \<and>
      results st = concat (map recs [0..<length countries]))"
proof (rule impI)
  assume H: "\<forall>j<length countries. new_page ctx j = Inr (tab j) \<and> close (tab j) = Inr () \<and>
        process_country (countries ! j) (tab j) = Inr (recs j)"
  from main_returns_results[OF H, of finish_time]
  obtain st where run: "main ctx finish_time countries = Inr st"
    and rs: "results st = concat (map recs [0..<length countries])"
    by (elim exE conjE)
  from run have b: "batches st =
      map (\<lambda>k. take 5 (drop (5 * k) countries)) [0..<(length countries + 4) div 5]"
    by (rule main_batches)
  from b have c: "concat (batches st) = countries" by (rule main_batches_concat)
  have t: "length countries = 12 \<longrightarrow> map length (batches st) = [5, 5, 2]"
    using b by (intro impI main_batches_twelve)
  show "\<exists>st. main ctx finish_time countries = Inr st \<and>
      batches st = map (\<lambda>k. take 5 (drop (5 * k) countries)) [0..<(length countries + 4) div 5] \<and>
      concat (batches st) = countries \<and>
      (length countries = 12 \<longrightarrow> map length (batches st) = [5, 5, 2]) \<and>
      results st = concat (map recs [0..<length countries])"
    using run b c t rs by (intro exI[of _ st] conjI)
qed

theorem batches_in_list_order_witness:
  "\<exists>st. main one_plan_context last_first twelve_countries = Inr st \<and>
     map length (batches st) = [5, 5, 2] \<and>
     concat (batches st) = twelve_countries \<and>
     map Country (results st) = twelve_countries"
proof -
  let ?tab = "\<lambda>j::nat. page_showing (pricing_list [''Standard: $16.49/month''])"
  let ?recs = "\<lambda>j. [li_row (twelve_countries ! j) ''Standard: $16.49/month'']"
  have H: "\<forall>j<length twelve_countries.
      new_page one_plan_context j = Inr (?tab j) \<and> close (?tab j) = Inr () \<and>
      process_country (twelve_countries ! j) (?tab j) = Inr (?recs j)"
    by (simp add: one_plan_context_def page_showing_def one_plan_scrape[unfolded page_showing_def])
  have l: "length twelve_countries = 12" by (simp add: twelve_countries_def)
  note r = batches_in_list_order
    [of twelve_countries one_plan_context ?tab ?recs last_first, THEN mp, OF H]
  from r obtain st where run: "main one_plan_context last_first twelve_countries = Inr st"
    and c: "concat (batches st) = twelve_countries"
    and t: "length twelve_countries = 12 \<longrightarrow> map length (batches st) = [5, 5, 2]"
    and rs: "results st = concat (map ?recs [0..<length twelve_countries])"
    by (elim exE conjE)
  from t l have sz: "map length (batches st) = [5, 5, 2]" by (rule mp)
  have "map Country (concat (map ?recs [0..<length twelve_countries])) =
      map (\<lambda>j. twelve_countries ! j) [0..<length twelve_countries]"
    by (simp add: map_concat li_row_def Let_def comp_def)
  also have "\<dots> = twelve_countries" by (rule map_nth)
  finally have "map Country (results st) = twelve_countries" by (simp only: rs)
  with run sz c show ?thesis by (intro exI[of _ st] conjI)
qed



end
